theory Spec2Isabelle
  imports Main "HOL-Library.Word"
begin

unbundle bit_operations_syntax

section \<open>Package mnist: data model\<close>

text \<open>
  Go's \<open>byte\<close> is an 8-bit word and \<open>int32\<close> a 32-bit word read with \<open>sint\<close>;
  multiplication on \<open>int32\<close> wraps around. Go's \<open>int\<close> and \<open>int64\<close> are modelled as
  \<open>int\<close>; the only arithmetic on \<open>int\<close> is in \<open>Index\<close>, where the 64-bit wrap-around is
  written out (\<open>wrap64\<close>).
\<close>

type_synonym byte = "8 word"
type_synonym int32 = "32 word"

definition xLAB :: int32 where
  "xLAB = 0x00000801"

definition xIMG :: int32 where
  "xIMG = 0x00000803"

text \<open>
  The error values of the package. The first group is produced by the operating system and
  the standard library and is opaque to the package (the string is the library's text); the
  second group is made by the package itself.
\<close>

datatype error =
    PathError string
  | GzipError string
  | UrlError string
  | EOF
  | ErrUnexpectedEOF
  | InvalidMagicImages int32
  | InvalidMagicLabels int32
  | MismatchedCount
  | LengthMismatch int int

text \<open>Run-time panics of the Go runtime that the package can raise.\<close>

datatype panic =
    MakesliceLenOutOfRange
  | IndexOutOfRange
  | SliceBoundsOutOfRange

text \<open>What a method with result type \<open>error\<close> does: return \<open>nil\<close>, return an error, or panic.\<close>

datatype outcome = Nil | Err error | Panic panic

text \<open>The struct \<open>Set\<close>. A nil slice and an empty slice are both the empty list.\<close>

record Set =
  count :: int32
  rows :: int32
  cols :: int32
  matrix :: "byte list"
  labels :: "byte list"

definition Rows :: "Set \<Rightarrow> int" where
  "Rows s = sint (rows s)"

definition Cols :: "Set \<Rightarrow> int" where
  "Cols s = sint (cols s)"

definition Len :: "Set \<Rightarrow> int" where
  "Len s = sint (count s)"

section \<open>Streams and the standard library\<close>

text \<open>
  A reader is the list of bytes it still delivers and the way it ends: \<open>None\<close> is a clean
  end of file (the reader returns \<open>io.EOF\<close>), \<open>Some e\<close> an error other than \<open>io.EOF\<close> met
  after the bytes (for a gzip reader: a corrupt or truncated compressed stream).
\<close>

type_synonym reader = "byte list \<times> error option"

text \<open>
  \<open>io.ReadFull(r, buf)\<close>: fills \<open>buf\<close> and returns \<open>nil\<close> when enough bytes come; otherwise
  the bytes that came overwrite the front of \<open>buf\<close>, and the error is the reader's own, or
  \<open>io.EOF\<close> when nothing was read, or \<open>io.ErrUnexpectedEOF\<close>. The result is the buffer, the
  error and the reader after the call.
\<close>

definition io_ReadFull :: "reader \<Rightarrow> byte list \<Rightarrow> byte list \<times> error option \<times> reader" where
  "io_ReadFull r buf =
     (let d = fst r; n = length buf in
      if n \<le> length d then (take n d, None, (drop n d, snd r))
      else (d @ drop (length d) buf,
            Some (case snd r of
                    Some e \<Rightarrow> e
                  | None \<Rightarrow> if d = [] then EOF else ErrUnexpectedEOF),
            ([], snd r)))"

text \<open>\<open>make([]byte, n)\<close> for an \<open>int32\<close> length: a zeroed slice, or a panic when \<open>n\<close> is negative.\<close>

definition make_slice :: "int32 \<Rightarrow> byte list option" where
  "make_slice n = (if sint n < 0 then None else Some (replicate (nat (sint n)) 0))"

text \<open>\<open>binary.BigEndian.Uint32\<close> followed by the conversion to \<open>int32\<close>.\<close>

definition BigEndian_int32 :: "byte list \<Rightarrow> int32" where
  "BigEndian_int32 b =
     ucast (b ! 3) OR push_bit 8 (ucast (b ! 2)) OR push_bit 16 (ucast (b ! 1))
       OR push_bit 24 (ucast (b ! 0))"

text \<open>
  \<open>binary.Read(z, binary.BigEndian, &v)\<close> for \<open>v\<close> of type \<open>int32\<close>: four bytes through
  \<open>io.ReadFull\<close>; on an error the target is not written.
\<close>

definition binary_Read :: "reader \<Rightarrow> error + (int32 \<times> reader)" where
  "binary_Read z =
     (case io_ReadFull z (replicate 4 0) of
        (bs, Some e, z') \<Rightarrow> Inl e
      | (bs, None, z') \<Rightarrow> Inr (BigEndian_int32 bs, z'))"

text \<open>
  What \<open>os.Open\<close> followed by \<open>gzip.NewReader\<close> gives for a path: the open fails, the gzip
  header is refused, or a reader of the decompressed bytes. The file system is a function
  from paths.
\<close>

datatype zfile =
    OpenFails error
  | GzipFails error
  | Gunzip reader

type_synonym zfs = "string \<Rightarrow> zfile"

section \<open>Decoding\<close>

text \<open>
  The loop of \<open>readImages\<close> over \<open>[]*int32{&s.count, &s.rows, &s.cols}\<close>: each field is
  written as soon as it is read, so an error leaves the earlier fields updated.
\<close>

fun read_fields ::
  "((int32 \<Rightarrow> int32) \<Rightarrow> Set \<Rightarrow> Set) list \<Rightarrow> reader \<Rightarrow> Set \<Rightarrow> (error + reader) \<times> Set" where
  "read_fields [] z s = (Inr z, s)"
| "read_fields (upd # us) z s =
     (case binary_Read z of
        Inl e \<Rightarrow> (Inl e, s)
      | Inr (v, z') \<Rightarrow> read_fields us z' (upd (\<lambda>_. v) s))"

text \<open>The method returns its error; the receiver is mutated in place, so it is returned too.\<close>

definition readImages :: "zfs \<Rightarrow> string \<Rightarrow> Set \<Rightarrow> outcome \<times> Set" where
  "readImages fs file s =
     (case fs file of
        OpenFails e \<Rightarrow> (Err e, s)
      | GzipFails e \<Rightarrow> (Err e, s)
      | Gunzip z \<Rightarrow>
          (case binary_Read z of
             Inl e \<Rightarrow> (Err e, s)
           | Inr (magic, z1) \<Rightarrow>
               if magic \<noteq> xIMG then (Err (InvalidMagicImages magic), s)
               else
                 (case read_fields [count_update, rows_update, cols_update] z1 s of
                    (Inl e, s1) \<Rightarrow> (Err e, s1)
                  | (Inr z2, s1) \<Rightarrow>
                      (case make_slice (count s1 * rows s1 * cols s1) of
                         None \<Rightarrow> (Panic MakesliceLenOutOfRange, s1)
                       | Some buf \<Rightarrow>
                           (case io_ReadFull z2 buf of
                              (buf', err, z3) \<Rightarrow>
                                (case err of None \<Rightarrow> Nil | Some e \<Rightarrow> Err e,
                                 s1\<lparr>matrix := buf'\<rparr>))))))"

definition readLabels :: "zfs \<Rightarrow> string \<Rightarrow> Set \<Rightarrow> outcome \<times> Set" where
  "readLabels fs file s =
     (case fs file of
        OpenFails e \<Rightarrow> (Err e, s)
      | GzipFails e \<Rightarrow> (Err e, s)
      | Gunzip z \<Rightarrow>
          (case binary_Read z of
             Inl e \<Rightarrow> (Err e, s)
           | Inr (magic, z1) \<Rightarrow>
               if magic \<noteq> xLAB then (Err (InvalidMagicLabels magic), s)
               else
                 (case binary_Read z1 of
                    Inl e \<Rightarrow> (Err e, s)
                  | Inr (cnt, z2) \<Rightarrow>
                      if cnt \<noteq> count s then (Err MismatchedCount, s)
                      else
                        (case make_slice (count s) of
                           None \<Rightarrow> (Panic MakesliceLenOutOfRange, s)
                         | Some buf \<Rightarrow>
                             (case io_ReadFull z2 buf of
                                (buf', err, z3) \<Rightarrow>
                                  (case err of None \<Rightarrow> Nil | Some e \<Rightarrow> Err e,
                                   s\<lparr>labels := buf'\<rparr>))))))"

definition read :: "zfs \<Rightarrow> string \<Rightarrow> string \<Rightarrow> Set \<Rightarrow> outcome \<times> Set" where
  "read fs images labs s =
     (case readImages fs images s of
        (Nil, s1) \<Rightarrow> readLabels fs labs s1
      | (err, s1) \<Rightarrow> (err, s1))"

section \<open>Access\<close>

text \<open>
  Go's \<open>int\<close> is 64 bits wide here; its multiplication wraps around. \<open>wrap w x\<close> is \<open>x\<close>
  reduced modulo \<open>2 ^ w\<close> and read as a signed \<open>w\<close>-bit value.
\<close>

definition wrap :: "nat \<Rightarrow> int \<Rightarrow> int" where
  "wrap w x = (x + 2 ^ (w - 1)) mod 2 ^ w - 2 ^ (w - 1)"

definition wrap64 :: "int \<Rightarrow> int" where
  "wrap64 x = wrap 64 x"

text \<open>
  \<open>Index\<close>: the stride is the \<open>int32\<close> product, widened. The slice expression panics unless
  \<open>0 \<le> low \<le> high \<le> cap\<close>, and \<open>s.labels[i]\<close> panics outside \<open>0 \<le> i < len\<close>. Go leaves
  the order of the two operands of the \<open>return\<close> open; the compiled code takes the slice
  first, so an index that fails both tests panics with the slice bounds. The storage comes
  from \<open>make\<close> with a length only, so its capacity is its length.
\<close>

definition Index :: "Set \<Rightarrow> int \<Rightarrow> panic + (byte \<times> byte list)" where
  "Index s i =
     (let stride = sint (rows s * cols s);
          lo = wrap64 (i * stride);
          hi = wrap64 ((i + 1) * stride) in
      if \<not> (0 \<le> lo \<and> lo \<le> hi \<and> hi \<le> int (length (matrix s))) then Inl SliceBoundsOutOfRange
      else if i < 0 \<or> int (length (labels s)) \<le> i then Inl IndexOutOfRange
      else Inr (labels s ! nat i, take (nat (hi - lo)) (drop (nat lo) (matrix s))))"

text \<open>The value of a package-level \<open>Set\<close> variable before \<open>init\<close> runs.\<close>

definition zero_Set :: Set where
  "zero_Set = \<lparr>count = 0, rows = 0, cols = 0, matrix = [], labels = []\<rparr>"

text \<open>The big-endian 32-bit integer at a byte offset of a decompressed stream.\<close>

definition word_at :: "nat \<Rightarrow> byte list \<Rightarrow> int32" where
  "word_at off d = BigEndian_int32 (take 4 (drop off d))"

section \<open>Error texts\<close>

text \<open>
  The verbs \<open>%x\<close> and \<open>%d\<close> of package fmt on a signed integer print a minus sign and the
  magnitude; \<open>%x\<close> on a byte slice prints two lower-case digits for each byte.
\<close>

definition hexdigit :: "nat \<Rightarrow> char" where
  "hexdigit k = ''0123456789abcdef'' ! k"

definition digits :: "nat \<Rightarrow> nat \<Rightarrow> nat \<Rightarrow> string" where
  "digits base width n =
     (case dropWhile (\<lambda>c. c = CHR ''0'')
             (map (\<lambda>k. hexdigit (n div base ^ k mod base)) (rev [0..<width])) of
        [] \<Rightarrow> ''0''
      | ds \<Rightarrow> ds)"

definition fmt_x :: "int32 \<Rightarrow> string" where
  "fmt_x v = (if sint v < 0 then CHR ''-'' # digits 16 8 (nat (- sint v))
              else digits 16 8 (nat (sint v)))"

definition fmt_d :: "int \<Rightarrow> string" where
  "fmt_d v = (if v < 0 then CHR ''-'' # digits 10 19 (nat (- v)) else digits 10 19 (nat v))"

definition Sprintf_x :: "byte list \<Rightarrow> string" where
  "Sprintf_x bs = concat (map (\<lambda>b. [hexdigit (unat b div 16), hexdigit (unat b mod 16)]) bs)"

text \<open>The method \<open>Error()\<close> of the error values.\<close>

fun Error :: "error \<Rightarrow> string" where
  "Error (PathError t) = t"
| "Error (GzipError t) = t"
| "Error (UrlError t) = t"
| "Error EOF = ''EOF''"
| "Error ErrUnexpectedEOF = ''unexpected EOF''"
| "Error (InvalidMagicImages magic) = ''invalid magic number for images: '' @ fmt_x magic"
| "Error (InvalidMagicLabels magic) = ''invalid magic number for labels: '' @ fmt_x magic"
| "Error MismatchedCount = ''mismatched number of labels and images''"
| "Error (LengthMismatch n l) = ''length mismatch '' @ fmt_d n @ '' != '' @ fmt_d l"

section \<open>The table of files and the body of the loop of \<open>init\<close>\<close>

text \<open>
  An element of the slice \<open>mnist\<close>. The field \<open>length\<close> is named \<open>length_f\<close> here. \<open>local\<close> is
  empty in the table and set by \<open>init\<close> before the file is looked at.
\<close>

record descriptor =
  url :: string
  local :: string
  length_f :: int
  md5 :: string

definition mnist :: "descriptor list" where
  "mnist =
     [\<lparr>url = ''http://yann.lecun.com/exdb/mnist/train-images-idx3-ubyte.gz'', local = [],
       length_f = 9912422, md5 = ''f68b3c2dcbeaaa9fbdd348bbdeb94873''\<rparr>,
      \<lparr>url = ''http://yann.lecun.com/exdb/mnist/train-labels-idx1-ubyte.gz'', local = [],
       length_f = 28881, md5 = ''d53e105ee54ea40749a09fcbcd1e9432''\<rparr>,
      \<lparr>url = ''http://yann.lecun.com/exdb/mnist/t10k-images-idx3-ubyte.gz'', local = [],
       length_f = 1648877, md5 = ''9fb629c4189551a2d022fa330f9573f3''\<rparr>,
      \<lparr>url = ''http://yann.lecun.com/exdb/mnist/t10k-labels-idx1-ubyte.gz'', local = [],
       length_f = 4542, md5 = ''ec29112dd5afa0611ce80d1b7f02629c''\<rparr>]"

text \<open>
  What \<open>os.Open\<close> gives for a local path: an error, or a file with the result of \<open>Stat\<close>
  (an error or the size), the bytes that reading delivers, and the read error met after
  them (\<open>None\<close>: end of file).
\<close>

datatype lfile =
    NoOpen error
  | Opened "error + int" "byte list" "error option"

text \<open>
  The three ways the check of the cached file ends: the file is good (\<open>continue\<close>, logged
  as \<open>OK\<close>), the file is to be downloaded, or \<open>isNil\<close> ends the process.
\<close>

datatype verdict = OK | Downloading | Fatal error

text \<open>
  Lines 140 to 153. \<open>md5_Sum\<close> is \<open>crypto/md5\<close>'s digest of the bytes written to the hash,
  taken as a parameter. \<open>io.Copy(hash, f)\<close> returns the number of bytes read and the read
  error; \<open>isNil(err)\<close> ends the process on a read error.
\<close>

definition init_check :: "(byte list \<Rightarrow> byte list) \<Rightarrow> (string \<Rightarrow> lfile) \<Rightarrow> descriptor \<Rightarrow> verdict" where
  "init_check md5_Sum fs m =
     (case fs (local m) of
        NoOpen e \<Rightarrow> Downloading
      | Opened st bytes rerr \<Rightarrow>
          (case st of
             Inl e \<Rightarrow> Downloading
           | Inr sz \<Rightarrow>
               if sz \<noteq> length_f m then Downloading
               else
                 (let n = int (length bytes) in
                  case rerr of
                    Some e \<Rightarrow> Fatal e
                  | None \<Rightarrow>
                      if n = length_f m \<and> Sprintf_x (md5_Sum bytes) = md5 m then OK
                      else Downloading)))"

text \<open>
  What \<open>cl.Get\<close> gives for a URL: an error (no connection, timeout), or a response with its
  status code and its body. What \<open>os.Create\<close> gives for a path: an error, or a file that
  takes every byte (\<open>None\<close>) or fails with an error after some number of bytes.
\<close>

datatype response =
    GetFails error
  | Response nat reader

datatype sink =
    CreateFails error
  | Created "(nat \<times> error) option"

text \<open>\<open>io.Copy(f, res.Body)\<close>: the number of bytes written and the first error met.\<close>

definition io_Copy :: "(nat \<times> error) option \<Rightarrow> reader \<Rightarrow> int \<times> error option" where
  "io_Copy dst src =
     (case dst of
        Some (k, e) \<Rightarrow>
          if k < length (fst src) then (int k, Some e) else (int (length (fst src)), snd src)
      | None \<Rightarrow> (int (length (fst src)), snd src))"

text \<open>
  Lines 157 to 171. The result is the error that ends the process, or \<open>None\<close> when the loop
  goes on to the next file. The status code of the response is not looked at.
\<close>

definition init_fetch :: "(string \<Rightarrow> response) \<Rightarrow> (string \<Rightarrow> sink) \<Rightarrow> descriptor \<Rightarrow> error option" where
  "init_fetch get create m =
     (case get (url m) of
        GetFails e \<Rightarrow> Some e
      | Response status body \<Rightarrow>
          (case create (local m) of
             CreateFails e \<Rightarrow> Some e
           | Created f \<Rightarrow>
               (case io_Copy f body of
                  (n, err) \<Rightarrow>
                    if n \<noteq> length_f m then Some (LengthMismatch n (length_f m)) else err)))"

text \<open>The body of the loop from line 140 on, for a descriptor whose \<open>local\<close> is set.\<close>

definition init_body ::
  "(byte list \<Rightarrow> byte list) \<Rightarrow> (string \<Rightarrow> lfile) \<Rightarrow> (string \<Rightarrow> response) \<Rightarrow> (string \<Rightarrow> sink) \<Rightarrow>
   descriptor \<Rightarrow> error option" where
  "init_body md5_Sum fs get create m =
     (case init_check md5_Sum fs m of
        OK \<Rightarrow> None
      | Fatal e \<Rightarrow> Some e
      | Downloading \<Rightarrow> init_fetch get create m)"

section \<open>The comparison the specification asks for\<close>

text \<open>
  The specification compares the hex digests without regard to case. This is that
  comparison, written from the specification's words, to be set against the string equality
  of \<open>init_check\<close>.
\<close>

definition to_lower :: "char \<Rightarrow> char" where
  "to_lower c =
     (case map_of (zip ''ABCDEFGHIJKLMNOPQRSTUVWXYZ'' ''abcdefghijklmnopqrstuvwxyz'') c of
        Some l \<Rightarrow> l
      | None \<Rightarrow> c)"

definition equal_fold :: "string \<Rightarrow> string \<Rightarrow> bool" where
  "equal_fold a b = (map to_lower a = map to_lower b)"

section \<open>Example files\<close>

text \<open>A file system holding the listed files and nothing else.\<close>

definition files :: "(string \<times> zfile) list \<Rightarrow> zfs" where
  "files fl p = (case map_of fl p of Some f \<Rightarrow> f | None \<Rightarrow> OpenFails (PathError ''no such file''))"

text \<open>Two images of one pixel each with the labels 5 and 9.\<close>

definition pair_fs :: zfs where
  "pair_fs =
     files [(''images'', Gunzip ([0,0,8,3, 0,0,0,2, 0,0,0,1, 0,0,0,1, 0x10, 0x20], None)),
            (''labels'', Gunzip ([0,0,8,1, 0,0,0,2, 5, 9], None))]"

text \<open>Two images of two rows and three columns with the labels 7 and 3.\<close>

definition grid_fs :: zfs where
  "grid_fs =
     files [(''images'', Gunzip ([0,0,8,3, 0,0,0,2, 0,0,0,2, 0,0,0,3,
                                  1, 2, 3, 4, 5, 6, 7, 8, 9, 10, 11, 12], None)),
            (''labels'', Gunzip ([0,0,8,1, 0,0,0,2, 7, 3], None))]"

text \<open>
  The same two images with trailing bytes, an image file cut short, and label files whose
  count is three, whose payload is cut short or missing, and whose second label is ten.
\<close>

definition odd_fs :: zfs where
  "odd_fs =
     files [(''images'', Gunzip ([0,0,8,3, 0,0,0,2, 0,0,0,1, 0,0,0,1, 0x10, 0x20, 0x30, 0x40], None)),
            (''short'', Gunzip ([0,0,8,3, 0,0,0,2, 0,0,0,1, 0,0,0,1, 0x10], None)),
            (''three'', Gunzip ([0,0,8,1, 0,0,0,3, 5, 9, 1], None)),
            (''cut'', Gunzip ([0,0,8,1, 0,0,0,2, 5], None)),
            (''none'', Gunzip ([0,0,8,1, 0,0,0,2], None)),
            (''ten'', Gunzip ([0,0,8,1, 0,0,0,2, 5, 10], None))]"

text \<open>
  Image headers whose product leaves the \<open>int32\<close> range: \<open>65536 * 65536 * 1\<close> and
  \<open>2 * 65536 * 32768\<close> wrap to 0, \<open>65536 * 32768 * 1\<close> wraps to \<open>- 2 ^ 31\<close>; and a
  header with the count \<open>- 1\<close>.
\<close>

definition wide_fs :: zfs where
  "wide_fs =
     files [(''square'', Gunzip ([0,0,8,3, 0,1,0,0, 0,1,0,0, 0,0,0,1], None)),
            (''double'', Gunzip ([0,0,8,3, 0,0,0,2, 0,1,0,0, 0,0,0x80,0], None)),
            (''half'', Gunzip ([0,0,8,3, 0,1,0,0, 0,0,0x80,0, 0,0,0,1], None)),
            (''minus'', Gunzip ([0,0,8,3, 0xff,0xff,0xff,0xff, 0,0,0,1, 0,0,0,1], None)),
            (''labels'', Gunzip ([0,0,8,1, 0,0,0,2, 5, 9], None))]"

section \<open>Example surroundings of \<open>init\<close>\<close>

text \<open>The fourth entry of the table, with its local path set as \<open>init\<close> does.\<close>

definition t10k_labels :: descriptor where
  "t10k_labels = (mnist ! 3)\<lparr>local := ''t10k-labels-idx1-ubyte.gz''\<rparr>"

text \<open>
  A stand-in for the digest that gives every input the digest of that entry; the theorems
  hold for every digest function.
\<close>

definition labels_Sum :: "byte list \<Rightarrow> byte list" where
  "labels_Sum bs =
     [0xec, 0x29, 0x11, 0x2d, 0xd5, 0xaf, 0xa0, 0x61, 0x1c, 0xe8, 0x0d, 0x1b, 0x7f, 0x02, 0x62, 0x9c]"

text \<open>
  Local file systems: every path holds a readable file of 4542 bytes; every path holds a
  file of that size whose reading breaks off after 100 bytes; no path can be opened.
\<close>

definition cached_fs :: "string \<Rightarrow> lfile" where
  "cached_fs p = Opened (Inr 4542) (replicate 4542 0) None"

definition broken_fs :: "string \<Rightarrow> lfile" where
  "broken_fs p = Opened (Inr 4542) (replicate 100 0) (Some (PathError ''input/output error''))"

definition empty_fs :: "string \<Rightarrow> lfile" where
  "empty_fs p = NoOpen (PathError ''no such file or directory'')"

text \<open>
  Servers: every request is refused; every request is answered with the status 404 and a
  page of 4542 bytes; every request is answered with the status 200 and 4542 bytes, or with
  100 bytes.
\<close>

definition down_web :: "string \<Rightarrow> response" where
  "down_web u = GetFails (UrlError ''connection refused'')"

definition gone_web :: "string \<Rightarrow> response" where
  "gone_web u = Response 404 (replicate 4542 0, None)"

definition good_web :: "string \<Rightarrow> response" where
  "good_web u = Response 200 (replicate 4542 0, None)"

definition short_web :: "string \<Rightarrow> response" where
  "short_web u = Response 200 (replicate 100 0, None)"

text \<open>Disks: every file can be created and written; no file can be created.\<close>

definition any_disk :: "string \<Rightarrow> sink" where
  "any_disk p = Created None"

definition locked_disk :: "string \<Rightarrow> sink" where
  "locked_disk p = CreateFails (PathError ''permission denied'')"

section \<open>Hex digests\<close>

lemma hexdigit_lower: "k < 16 \<Longrightarrow> to_lower (hexdigit k) = hexdigit k"
proof -
  assume "k < 16"
  then have "k \<in> {0,1,2,3,4,5,6,7,8,9,10,11,12,13,14,15}"
    by simp arith
  then show ?thesis
    by (elim insertE emptyE) (simp_all add: hexdigit_def to_lower_def)
qed

lemma Sprintf_x_lower: "map to_lower (Sprintf_x bs) = Sprintf_x bs"
proof (induction bs)
  case Nil
  show ?case by (simp add: Sprintf_x_def)
next
  case (Cons b bs)
  have "unat b < 256" using unsigned_less [of b, where ?'a = nat] by simp
  then have "unat b div 16 < 16" by simp
  then show ?case using Cons
    by (simp add: Sprintf_x_def hexdigit_lower)
qed

lemma mnist_md5_hex:
  "map md5 mnist =
     [Sprintf_x [0xf6, 0x8b, 0x3c, 0x2d, 0xcb, 0xea, 0xaa, 0x9f,
                 0xbd, 0xd3, 0x48, 0xbb, 0xde, 0xb9, 0x48, 0x73],
      Sprintf_x [0xd5, 0x3e, 0x10, 0x5e, 0xe5, 0x4e, 0xa4, 0x07,
                 0x49, 0xa0, 0x9f, 0xcb, 0xcd, 0x1e, 0x94, 0x32],
      Sprintf_x [0x9f, 0xb6, 0x29, 0xc4, 0x18, 0x95, 0x51, 0xa2,
                 0xd0, 0x22, 0xfa, 0x33, 0x0f, 0x95, 0x73, 0xf3],
      Sprintf_x [0xec, 0x29, 0x11, 0x2d, 0xd5, 0xaf, 0xa0, 0x61,
                 0x1c, 0xe8, 0x0d, 0x1b, 0x7f, 0x02, 0x62, 0x9c]]"
  by (simp add: mnist_def Sprintf_x_def hexdigit_def)

lemma mnist_md5_lower:
  assumes "e \<in> set mnist"
  shows "map to_lower (md5 e) = md5 e"
proof -
  have "md5 e \<in> set (map md5 mnist)" using assms by simp
  then obtain bs where "md5 e = Sprintf_x bs"
    unfolding mnist_md5_hex by auto
  then show ?thesis by (simp add: Sprintf_x_lower)
qed

lemma equal_fold_exact:
  "e \<in> set mnist \<Longrightarrow> equal_fold (Sprintf_x bs) (md5 e) \<longleftrightarrow> Sprintf_x bs = md5 e"
  by (simp add: equal_fold_def Sprintf_x_lower mnist_md5_lower)

section \<open>The check of the cached file\<close>

text \<open>
  Claim C1, amended. For each of the four descriptors, the check of the cached file accepts
  the local file (and the download is skipped) if and only if the file can be opened, its
  size according to \<open>Stat\<close> equals the expected length, it is read to its end without an error,
  the number of bytes read equals the expected length, and the MD5 digest of the bytes read,
  in hexadecimal, equals the expected hash without regard to case (the code compares the
  lower-case rendering for equality, which is the same for the hashes of the table). A file
  that cannot be opened, a failing \<open>Stat\<close>, a wrong length and a wrong hash make the file
  invalid, and it is downloaded. An error while the file is read for the digest is not
  treated as invalid: it ends the process.
\<close>

theorem cache_check:
  assumes "e \<in> set mnist" and "m = e\<lparr>local := path\<rparr>"
  shows "(init_check md5_Sum fs m = OK \<longleftrightarrow>
            (\<exists>bytes. fs path = Opened (Inr (length_f m)) bytes None
               \<and> int (length bytes) = length_f m
               \<and> equal_fold (Sprintf_x (md5_Sum bytes)) (md5 m)))
       \<and> (init_check md5_Sum fs m = Fatal err \<longleftrightarrow>
            (\<exists>bytes. fs path = Opened (Inr (length_f m)) bytes (Some err)))
       \<and> (init_check md5_Sum fs m = Downloading \<longleftrightarrow>
            (\<exists>x. fs path = NoOpen x)
            \<or> (\<exists>x bytes r. fs path = Opened (Inl x) bytes r)
            \<or> (\<exists>sz bytes r. fs path = Opened (Inr sz) bytes r \<and> sz \<noteq> length_f m)
            \<or> (\<exists>bytes. fs path = Opened (Inr (length_f m)) bytes None
                  \<and> (int (length bytes) \<noteq> length_f m
                      \<or> \<not> equal_fold (Sprintf_x (md5_Sum bytes)) (md5 m))))
       \<and> (init_check md5_Sum fs m = Downloading \<longrightarrow>
            init_body md5_Sum fs get create m = init_fetch get create m)"
proof -
  have fold: "equal_fold (Sprintf_x bs) (md5 m) \<longleftrightarrow> Sprintf_x bs = md5 m" for bs
    using equal_fold_exact [OF assms(1)] assms(2) by simp
  have loc: "local m = path" using assms(2) by simp
  have body: "init_check md5_Sum fs m = Downloading \<longrightarrow>
      init_body md5_Sum fs get create m = init_fetch get create m"
    by (simp add: init_body_def)
  show ?thesis
  proof (cases "fs path")
    case (NoOpen x)
    then show ?thesis using body by (simp add: init_check_def loc)
  next
    case (Opened st bytes r)
    show ?thesis
    proof (cases st)
      case (Inl x)
      then show ?thesis using body Opened by (simp add: init_check_def loc)
    next
      case (Inr sz)
      show ?thesis
      proof (cases r)
        case None
        then show ?thesis
          using body Opened Inr by (auto simp: init_check_def loc fold Let_def)
      next
        case (Some x)
        then show ?thesis
          using body Opened Inr by (auto simp: init_check_def loc Let_def)
      qed
    qed
  qed
qed


text \<open>A good cached file, and no cached file at all.\<close>

theorem cache_check_witness:
  "mnist ! 3 \<in> set mnist
   \<and> t10k_labels = (mnist ! 3)\<lparr>local := ''t10k-labels-idx1-ubyte.gz''\<rparr>
   \<and> init_check labels_Sum cached_fs t10k_labels = OK
   \<and> init_check labels_Sum empty_fs t10k_labels = Downloading
   \<and> init_body labels_Sum empty_fs good_web any_disk t10k_labels =
       init_fetch good_web any_disk t10k_labels"
proof -
  have e: "mnist ! 3 \<in> set mnist"
    by (simp add: mnist_def)
  have m: "t10k_labels = (mnist ! 3)\<lparr>local := ''t10k-labels-idx1-ubyte.gz''\<rparr>"
    by (simp add: t10k_labels_def)
  have len: "length_f t10k_labels = 4542"
    by (simp add: t10k_labels_def mnist_def)
  have "Sprintf_x (labels_Sum bs) = md5 (mnist ! 3)" for bs
    by (simp add: mnist_def labels_Sum_def Sprintf_x_def hexdigit_def)
  then have dg: "equal_fold (Sprintf_x (labels_Sum bs)) (md5 t10k_labels)" for bs
    by (simp add: t10k_labels_def equal_fold_def)
  show ?thesis
    using e m
      cache_check [OF e m, where md5_Sum = labels_Sum and fs = cached_fs]
      cache_check [OF e m, where md5_Sum = labels_Sum and fs = empty_fs and get = good_web
        and create = any_disk]
    by (simp add: cached_fs_def empty_fs_def len dg)
qed

text \<open>
  The claim as it was stated fails where the file has the expected size and its reading
  breaks off: the error is not taken for an invalid file, it ends the process, although the
  download would have succeeded.
\<close>

theorem cache_check_counterexample:
  "init_check labels_Sum broken_fs t10k_labels = Fatal (PathError ''input/output error'')
   \<and> init_body labels_Sum broken_fs good_web any_disk t10k_labels =
       Some (PathError ''input/output error'')
   \<and> init_fetch good_web any_disk t10k_labels = None"
  by (simp add: init_body_def init_check_def init_fetch_def io_Copy_def broken_fs_def
      good_web_def any_disk_def t10k_labels_def mnist_def)

section \<open>The download\<close>

text \<open>
  Claim C2, amended. For every descriptor, the download ends the process with the error of
  the request exactly when the request itself fails (no connection, timeout); the status
  code of a response is not looked at, so a response with a non-success status is copied to
  the local file like any other. After a response, the download ends the process with the
  error of \<open>os.Create\<close> when the local file cannot be created; otherwise with a length
  mismatch when the number of bytes written differs from the expected length; otherwise
  with the error of the copy, if there is one. It succeeds exactly when there is a
  response, the file is created, the number of bytes written equals the expected length and
  the copy reports no error.
\<close>

theorem fetch_outcomes:
  "(\<forall>x. get (url m) = GetFails x \<longrightarrow> init_fetch get create m = Some x)
   \<and> (\<forall>st body x. get (url m) = Response st body \<and> create (local m) = CreateFails x \<longrightarrow>
         init_fetch get create m = Some x)
   \<and> (\<forall>st body f. get (url m) = Response st body \<and> create (local m) = Created f \<longrightarrow>
         (fst (io_Copy f body) \<noteq> length_f m \<longrightarrow>
            init_fetch get create m =
              Some (LengthMismatch (fst (io_Copy f body)) (length_f m)))
       \<and> (fst (io_Copy f body) = length_f m \<longrightarrow>
            init_fetch get create m = snd (io_Copy f body)))
   \<and> (init_fetch get create m = None \<longleftrightarrow>
         (\<exists>st body f. get (url m) = Response st body \<and> create (local m) = Created f
            \<and> io_Copy f body = (length_f m, None)))"
proof (cases "get (url m)")
  case (GetFails x)
  then show ?thesis by (simp add: init_fetch_def)
next
  case (Response st body)
  show ?thesis
  proof (cases "create (local m)")
    case (CreateFails x)
    then show ?thesis using Response by (simp add: init_fetch_def)
  next
    case (Created f)
    obtain n err where c: "io_Copy f body = (n, err)" by (cases "io_Copy f body")
    show ?thesis using Response Created c by (auto simp: init_fetch_def)
  qed
qed

text \<open>A refused request, a disk that cannot be written, a short body and a good download.\<close>

theorem fetch_outcomes_witness:
  "init_fetch down_web any_disk t10k_labels = Some (UrlError ''connection refused'')
   \<and> init_fetch good_web locked_disk t10k_labels = Some (PathError ''permission denied'')
   \<and> init_fetch short_web any_disk t10k_labels = Some (LengthMismatch 100 4542)
   \<and> init_fetch good_web any_disk t10k_labels = None"
proof -
  have len: "length_f t10k_labels = 4542"
    by (simp add: t10k_labels_def mnist_def)
  have c: "io_Copy None (replicate 100 0, None) = (100, None)"
    "io_Copy None (replicate 4542 0, None) = (4542, None)"
    by (simp_all add: io_Copy_def)
  show ?thesis
    using
      fetch_outcomes [where get = down_web and create = any_disk and m = t10k_labels]
      fetch_outcomes [where get = good_web and create = locked_disk and m = t10k_labels]
      fetch_outcomes [where get = short_web and create = any_disk and m = t10k_labels]
      fetch_outcomes [where get = good_web and create = any_disk and m = t10k_labels]
    by (simp add: down_web_def good_web_def short_web_def any_disk_def locked_disk_def len c)
qed

text \<open>
  The claim as it was stated fails on a response with the status 404 whose page has the
  expected number of bytes: the download succeeds. It fails as well where the file cannot be
  created: no byte is written, and the error is that of \<open>os.Create\<close>, not a length mismatch.
\<close>

theorem fetch_outcomes_counterexample:
  "gone_web (url t10k_labels) = Response 404 (replicate 4542 0, None)
   \<and> init_fetch gone_web any_disk t10k_labels = None
   \<and> init_fetch good_web locked_disk t10k_labels = Some (PathError ''permission denied'')"
  by (simp add: init_fetch_def io_Copy_def gone_web_def good_web_def any_disk_def
      locked_disk_def t10k_labels_def mnist_def)

section \<open>Facts about the readers\<close>

lemma io_ReadFull_enough:
  "length buf \<le> length d \<Longrightarrow>
   io_ReadFull (d, t) buf = (take (length buf) d, None, (drop (length buf) d, t))"
  by (simp add: io_ReadFull_def Let_def)

lemma io_ReadFull_short:
  "length d < length buf \<Longrightarrow>
   io_ReadFull (d, t) buf =
     (d @ drop (length d) buf,
      Some (case t of Some e \<Rightarrow> e | None \<Rightarrow> if d = [] then EOF else ErrUnexpectedEOF),
      ([], t))"
  by (simp add: io_ReadFull_def Let_def)

lemma binary_Read_enough:
  "4 \<le> length d \<Longrightarrow> binary_Read (d, t) = Inr (BigEndian_int32 (take 4 d), (drop 4 d, t))"
  by (simp add: binary_Read_def io_ReadFull_enough)

lemma binary_Read_first:
  "4 \<le> length d \<Longrightarrow> binary_Read (d, t) = Inr (word_at 0 d, (drop 4 d, t))"
  by (simp add: binary_Read_enough word_at_def)

lemma read_fields_three:
  assumes "12 \<le> length d"
  shows "read_fields [count_update, rows_update, cols_update] (d, t) s =
           (Inr (drop 12 d, t),
            s\<lparr>count := word_at 0 d, rows := word_at 4 d, cols := word_at 8 d\<rparr>)"
  using assms by (simp add: binary_Read_enough word_at_def)

section \<open>The two decoders after a good header\<close>

lemma readImages_header:
  assumes "fs p = Gunzip (d, t)" "16 \<le> length d" "word_at 0 d = xIMG"
  shows "readImages fs p s =
     (let s1 = s\<lparr>count := word_at 4 d, rows := word_at 8 d, cols := word_at 12 d\<rparr> in
      case make_slice (word_at 4 d * word_at 8 d * word_at 12 d) of
        None \<Rightarrow> (Panic MakesliceLenOutOfRange, s1)
      | Some buf \<Rightarrow>
          (case io_ReadFull (drop 16 d, t) buf of
             (buf', err, z3) \<Rightarrow>
               (case err of None \<Rightarrow> Nil | Some e \<Rightarrow> Err e, s1\<lparr>matrix := buf'\<rparr>)))"
proof -
  have "read_fields [count_update, rows_update, cols_update] (drop 4 d, t) s =
          (Inr (drop 16 d, t),
           s\<lparr>count := word_at 4 d, rows := word_at 8 d, cols := word_at 12 d\<rparr>)"
  proof -
    have len: "12 \<le> length (drop 4 d)" using assms(2) by simp
    have w: "word_at 0 (drop 4 d) = word_at 4 d" "word_at 4 (drop 4 d) = word_at 8 d"
      "word_at 8 (drop 4 d) = word_at 12 d"
      by (simp_all add: word_at_def)
    show ?thesis
      unfolding read_fields_three [OF len] w by simp
  qed
  then show ?thesis
    using assms by (simp add: readImages_def binary_Read_first Let_def)
qed

lemma readLabels_header:
  assumes "fs p = Gunzip (d, t)" "8 \<le> length d" "word_at 0 d = xLAB"
  shows "readLabels fs p s =
     (if word_at 4 d \<noteq> count s then (Err MismatchedCount, s)
      else
        (case make_slice (count s) of
           None \<Rightarrow> (Panic MakesliceLenOutOfRange, s)
         | Some buf \<Rightarrow>
             (case io_ReadFull (drop 8 d, t) buf of
                (buf', err, z3) \<Rightarrow>
                  (case err of None \<Rightarrow> Nil | Some e \<Rightarrow> Err e, s\<lparr>labels := buf'\<rparr>))))"
proof -
  have "word_at 0 (drop 4 d) = word_at 4 d"
    by (simp add: word_at_def)
  then have "binary_Read (drop 4 d, t) = Inr (word_at 4 d, (drop 8 d, t))"
    using assms(2) by (simp add: binary_Read_first)
  then show ?thesis
    using assms by (simp add: readLabels_def binary_Read_first)
qed

lemma readImages_bad_magic:
  assumes "fs p = Gunzip (d, t)" "4 \<le> length d" "word_at 0 d \<noteq> xIMG"
  shows "readImages fs p s = (Err (InvalidMagicImages (word_at 0 d)), s)"
  using assms by (simp add: readImages_def binary_Read_first)

lemma readLabels_bad_magic:
  assumes "fs p = Gunzip (d, t)" "4 \<le> length d" "word_at 0 d \<noteq> xLAB"
  shows "readLabels fs p s = (Err (InvalidMagicLabels (word_at 0 d)), s)"
  using assms by (simp add: readLabels_def binary_Read_first)

lemmas eval_defs =
  read_def readImages_def readLabels_def binary_Read_def io_ReadFull_def BigEndian_int32_def
  xIMG_def xLAB_def make_slice_def zero_Set_def files_def word_at_def

section \<open>The scenario of two one-pixel images\<close>

text \<open>
  Claim C8. Decoding the label file with the decompressed bytes 00 00 08 01, 00 00 00 02,
  05, 09 together with the image file with the decompressed bytes 00 00 08 03, 00 00 00 02,
  00 00 00 01, 00 00 00 01, 10, 20 gives a data set of length 2 with one row and one column,
  the labels 5 and 9, and \<open>Index 0 = (5, [0x10])\<close>, \<open>Index 1 = (9, [0x20])\<close>.
\<close>

theorem scenario:
  "read pair_fs ''images'' ''labels'' zero_Set =
     (Nil, \<lparr>count = 2, rows = 1, cols = 1, matrix = [0x10, 0x20], labels = [5, 9]\<rparr>)
   \<and> Len (snd (read pair_fs ''images'' ''labels'' zero_Set)) = 2
   \<and> Rows (snd (read pair_fs ''images'' ''labels'' zero_Set)) = 1
   \<and> Cols (snd (read pair_fs ''images'' ''labels'' zero_Set)) = 1
   \<and> labels (snd (read pair_fs ''images'' ''labels'' zero_Set)) = [5, 9]
   \<and> Index (snd (read pair_fs ''images'' ''labels'' zero_Set)) 0 = Inr (5, [0x10])
   \<and> Index (snd (read pair_fs ''images'' ''labels'' zero_Set)) 1 = Inr (9, [0x20])"
proof -
  have "read pair_fs ''images'' ''labels'' zero_Set =
          (Nil, \<lparr>count = 2, rows = 1, cols = 1, matrix = [0x10, 0x20], labels = [5, 9]\<rparr>)"
    by (simp add: eval_defs pair_fs_def)
  then show ?thesis
    by (simp add: Len_def Rows_def Cols_def Index_def wrap64_def wrap_def)
qed

section \<open>Magic numbers\<close>

text \<open>
  Claim C4. When the first big-endian 32-bit integer of the decompressed stream is not
  \<open>0x00000803\<close>, \<open>readImages\<close> fails with the error that names that integer, and when it is
  not \<open>0x00000801\<close>, \<open>readLabels\<close> fails likewise. In particular a label file given to
  \<open>readImages\<close>, and an image file given to \<open>readLabels\<close>, is refused with that error, whose
  text shows the value in hexadecimal. The receiver is left as it was.
\<close>

theorem magic_checked:
  assumes "fs p = Gunzip (d, t)" and "4 \<le> length d"
  shows "(word_at 0 d \<noteq> xIMG \<longrightarrow>
            readImages fs p s = (Err (InvalidMagicImages (word_at 0 d)), s))
       \<and> (word_at 0 d \<noteq> xLAB \<longrightarrow>
            readLabels fs p s = (Err (InvalidMagicLabels (word_at 0 d)), s))
       \<and> (word_at 0 d = xLAB \<longrightarrow>
            readImages fs p s = (Err (InvalidMagicImages xLAB), s)
            \<and> Error (InvalidMagicImages xLAB) = ''invalid magic number for images: 801'')
       \<and> (word_at 0 d = xIMG \<longrightarrow>
            readLabels fs p s = (Err (InvalidMagicLabels xIMG), s)
            \<and> Error (InvalidMagicLabels xIMG) = ''invalid magic number for labels: 803'')"
proof -
  have ne: "xLAB \<noteq> xIMG" by (simp add: xLAB_def xIMG_def)
  have t1: "Error (InvalidMagicImages xLAB) = ''invalid magic number for images: 801''"
    by (simp add: fmt_x_def digits_def hexdigit_def xLAB_def upt_rec [of _ "numeral _"] upt_rec [of 0])
  have t2: "Error (InvalidMagicLabels xIMG) = ''invalid magic number for labels: 803''"
    by (simp add: fmt_x_def digits_def hexdigit_def xIMG_def upt_rec [of _ "numeral _"] upt_rec [of 0])
  show ?thesis
    using ne t1 t2
      readImages_bad_magic [where fs = fs and p = p and d = d and t = t and s = s]
      readLabels_bad_magic [where fs = fs and p = p and d = d and t = t and s = s]
      assms
    by (metis (no_types))
qed

theorem magic_checked_witness:
  "pair_fs ''labels'' = Gunzip ([0,0,8,1, 0,0,0,2, 5, 9], None)
   \<and> pair_fs ''images'' = Gunzip ([0,0,8,3, 0,0,0,2, 0,0,0,1, 0,0,0,1, 0x10, 0x20], None)
   \<and> readImages pair_fs ''labels'' zero_Set = (Err (InvalidMagicImages 0x801), zero_Set)
   \<and> readLabels pair_fs ''images'' zero_Set = (Err (InvalidMagicLabels 0x803), zero_Set)"
proof -
  have l: "pair_fs ''labels'' = Gunzip ([0,0,8,1, 0,0,0,2, 5, 9], None)"
    by (simp add: pair_fs_def files_def)
  have i: "pair_fs ''images'' = Gunzip ([0,0,8,3, 0,0,0,2, 0,0,0,1, 0,0,0,1, 0x10, 0x20], None)"
    by (simp add: pair_fs_def files_def)
  have wl: "word_at 0 [0,0,8,1, 0,0,0,2, 5, 9] = xLAB"
    by (simp add: word_at_def BigEndian_int32_def xLAB_def)
  have wi: "word_at 0 [0,0,8,3, 0,0,0,2, 0,0,0,1, 0,0,0,1, 0x10, 0x20] = xIMG"
    by (simp add: word_at_def BigEndian_int32_def xIMG_def)
  show ?thesis
    using l i wl wi
      magic_checked [of pair_fs "''labels''" "[0,0,8,1, 0,0,0,2, 5, 9]" None zero_Set]
      magic_checked [of pair_fs "''images''" "[0,0,8,3, 0,0,0,2, 0,0,0,1, 0,0,0,1, 0x10, 0x20]"
        None zero_Set]
    by (simp add: xLAB_def xIMG_def)
qed

section \<open>Counts that disagree\<close>




lemma wrap_id: "- (2 ^ (w - 1)) \<le> x \<Longrightarrow> x < 2 ^ (w - 1) \<Longrightarrow> 0 < w \<Longrightarrow> wrap w x = x"
proof -
  assume a: "- (2 ^ (w - 1)) \<le> x" "x < 2 ^ (w - 1)" "0 < w"
  have p: "(2::int) ^ w = 2 * 2 ^ (w - 1)"
    using a(3) by (cases w) simp_all
  have "0 \<le> x + 2 ^ (w - 1)" "x + 2 ^ (w - 1) < 2 ^ w"
    using a p by simp_all
  then have "(x + 2 ^ (w - 1)) mod 2 ^ w = x + 2 ^ (w - 1)"
    by simp
  then show ?thesis by (simp add: wrap_def)
qed

lemma signed_take_bit_wrap: "signed_take_bit 31 x = wrap 32 (x::int)"
  by (simp add: wrap_def signed_take_bit_eq_take_bit_shift take_bit_eq_mod)

lemma sint_mult3:
  fixes a b c :: int32
  shows "sint (a * b * c) = wrap 32 (sint a * sint b * sint c)"
proof -
  have c: "signed_take_bit 31 (sint c) = sint c"
    using sint_ge [of c] sint_lt [of c] by (simp add: signed_take_bit_int_eq_self)
  have "sint (a * b * c) = signed_take_bit 31 (signed_take_bit 31 (sint a * sint b) * sint c)"
    by (simp add: sint_word_ariths)
  also have "\<dots> =
      signed_take_bit 31 (signed_take_bit 31 (sint a * sint b) * signed_take_bit 31 (sint c))"
    by (simp only: c)
  also have "\<dots> = signed_take_bit 31 (sint a * sint b * sint c)"
    by (rule signed_take_bit_mult)
  finally show ?thesis by (simp only: signed_take_bit_wrap)
qed

lemma sint_mult2:
  fixes a b :: int32
  shows "sint (a * b) = wrap 32 (sint a * sint b)"
  by (simp add: sint_word_ariths signed_take_bit_wrap)

lemma wrap32_id: "- (2 ^ 31) \<le> x \<Longrightarrow> x < 2 ^ 31 \<Longrightarrow> wrap 32 x = x"
  using wrap_id [of 32 x] by simp

lemma wrap64_id: "- (2 ^ 63) \<le> x \<Longrightarrow> x < 2 ^ 63 \<Longrightarrow> wrap64 x = x"
  using wrap_id [of 64 x] by (simp add: wrap64_def)

lemma wrap32_range: "- (2 ^ 31) \<le> wrap 32 x \<and> wrap 32 x < 2 ^ 31"
proof -
  have "0 \<le> (x + 2 ^ 31) mod 2 ^ 32" "(x + 2 ^ 31) mod 2 ^ 32 < (2 ^ 32 :: int)"
    by simp_all
  then show ?thesis by (simp add: wrap_def)
qed

lemma wrap32_cong: "wrap 32 x mod 2 ^ 32 = x mod 2 ^ 32"
proof -
  have "wrap 32 x = (x + 2 ^ 31) mod 2 ^ 32 - 2 ^ 31" by (simp add: wrap_def)
  then have "wrap 32 x mod 2 ^ 32 = ((x + 2 ^ 31) mod 2 ^ 32 - 2 ^ 31) mod 2 ^ 32" by simp
  also have "\<dots> = (x + 2 ^ 31 - 2 ^ 31) mod 2 ^ 32"
    by (rule mod_diff_left_eq)
  finally show ?thesis by simp
qed

lemma io_ReadFull_length: "length (fst (io_ReadFull z buf)) = length buf"
  by (cases z) (simp add: io_ReadFull_def Let_def)

section \<open>The pixel payload\<close>

text \<open>
  Claim C3, amended. After a good header of an image file (magic number, then count, rows and
  columns, in that order, as big-endian 32-bit integers), let \<open>n\<close> be the product of count,
  rows and columns computed in \<open>int32\<close>; it is the product itself when that lies between 0
  and \<open>2 ^ 31 - 1\<close>. When \<open>n\<close> is not negative, \<open>readImages\<close> returns a pixel payload of
  exactly \<open>n\<close> bytes, the first ones after the header, whatever follows them; when fewer
  than \<open>n\<close> bytes are left it fails with \<open>io.EOF\<close> (no payload byte at all),
  \<open>io.ErrUnexpectedEOF\<close> (some) or the error of the decompressor, and the storage holds the
  bytes that came, filled up with zeros. When \<open>n\<close> is negative the allocation panics.
\<close>

theorem payload_read:
  fixes s :: Set and d :: "byte list"
  assumes "fs p = Gunzip (d, t)" and "16 \<le> length d" and "word_at 0 d = xIMG"
  defines "n \<equiv> sint (word_at 4 d * word_at 8 d * word_at 12 d)"
  defines "s1 \<equiv> s\<lparr>count := word_at 4 d, rows := word_at 8 d, cols := word_at 12 d\<rparr>"
  shows "(0 \<le> n \<and> nat n \<le> length d - 16 \<longrightarrow>
            readImages fs p s = (Nil, s1\<lparr>matrix := take (nat n) (drop 16 d)\<rparr>)
            \<and> int (length (take (nat n) (drop 16 d))) = n)
       \<and> (0 \<le> n \<and> length d - 16 < nat n \<longrightarrow>
            readImages fs p s =
              (Err (case t of
                      Some e \<Rightarrow> e
                    | None \<Rightarrow> if length d = 16 then EOF else ErrUnexpectedEOF),
               s1\<lparr>matrix := drop 16 d @ replicate (nat n - (length d - 16)) 0\<rparr>))
       \<and> (n < 0 \<longrightarrow> readImages fs p s = (Panic MakesliceLenOutOfRange, s1))
       \<and> (0 \<le> sint (word_at 4 d) * sint (word_at 8 d) * sint (word_at 12 d)
            \<and> sint (word_at 4 d) * sint (word_at 8 d) * sint (word_at 12 d) < 2 ^ 31 \<longrightarrow>
            n = sint (word_at 4 d) * sint (word_at 8 d) * sint (word_at 12 d))"
proof -
  have hd: "readImages fs p s =
      (case make_slice (word_at 4 d * word_at 8 d * word_at 12 d) of
         None \<Rightarrow> (Panic MakesliceLenOutOfRange, s1)
       | Some buf \<Rightarrow>
           (case io_ReadFull (drop 16 d, t) buf of
              (buf', err, z3) \<Rightarrow>
                (case err of None \<Rightarrow> Nil | Some e \<Rightarrow> Err e, s1\<lparr>matrix := buf'\<rparr>)))"
    using readImages_header [where fs = fs and p = p, OF assms(1-3), of s]
    unfolding s1_def Let_def by simp
  have neg: "n < 0 \<Longrightarrow> readImages fs p s = (Panic MakesliceLenOutOfRange, s1)"
    by (simp add: hd make_slice_def n_def)
  have enough: "0 \<le> n \<Longrightarrow> nat n \<le> length d - 16 \<Longrightarrow>
      readImages fs p s = (Nil, s1\<lparr>matrix := take (nat n) (drop 16 d)\<rparr>)"
    using io_ReadFull_enough [of "replicate (nat n) 0" "drop 16 d" t]
    by (simp add: hd make_slice_def n_def)
  have short: "0 \<le> n \<Longrightarrow> length d - 16 < nat n \<Longrightarrow>
      readImages fs p s =
        (Err (case t of Some e \<Rightarrow> e | None \<Rightarrow> if length d = 16 then EOF else ErrUnexpectedEOF),
         s1\<lparr>matrix := drop 16 d @ replicate (nat n - (length d - 16)) 0\<rparr>)"
    using io_ReadFull_short [of "drop 16 d" "replicate (nat n) 0" t] assms(2)
    by (simp add: hd make_slice_def n_def split: option.splits)
  have exact: "0 \<le> sint (word_at 4 d) * sint (word_at 8 d) * sint (word_at 12 d) \<Longrightarrow>
      sint (word_at 4 d) * sint (word_at 8 d) * sint (word_at 12 d) < 2 ^ 31 \<Longrightarrow>
      n = sint (word_at 4 d) * sint (word_at 8 d) * sint (word_at 12 d)"
    by (simp add: n_def sint_mult3 wrap32_id)
  show ?thesis using neg enough short exact by simp
qed

text \<open>
  An image file with trailing bytes, one that is a byte short, and one whose product is
  negative in \<open>int32\<close>.
\<close>

theorem payload_read_witness:
  "odd_fs ''images'' =
     Gunzip ([0,0,8,3, 0,0,0,2, 0,0,0,1, 0,0,0,1, 0x10, 0x20, 0x30, 0x40], None)
   \<and> odd_fs ''short'' = Gunzip ([0,0,8,3, 0,0,0,2, 0,0,0,1, 0,0,0,1, 0x10], None)
   \<and> wide_fs ''half'' = Gunzip ([0,0,8,3, 0,1,0,0, 0,0,0x80,0, 0,0,0,1], None)
   \<and> readImages odd_fs ''images'' zero_Set =
       (Nil, \<lparr>count = 2, rows = 1, cols = 1, matrix = [0x10, 0x20], labels = []\<rparr>)
   \<and> readImages odd_fs ''short'' zero_Set =
       (Err ErrUnexpectedEOF, \<lparr>count = 2, rows = 1, cols = 1, matrix = [0x10, 0], labels = []\<rparr>)
   \<and> readImages wide_fs ''half'' zero_Set =
       (Panic MakesliceLenOutOfRange,
        \<lparr>count = 65536, rows = 32768, cols = 1, matrix = [], labels = []\<rparr>)"
proof -
  let ?a = "[0,0,8,3, 0,0,0,2, 0,0,0,1, 0,0,0,1, 0x10, 0x20, 0x30, 0x40] :: byte list"
  let ?b = "[0,0,8,3, 0,0,0,2, 0,0,0,1, 0,0,0,1, 0x10] :: byte list"
  let ?c = "[0,0,8,3, 0,1,0,0, 0,0,0x80,0, 0,0,0,1] :: byte list"
  have fa: "odd_fs ''images'' = Gunzip (?a, None)" and fb: "odd_fs ''short'' = Gunzip (?b, None)"
    by (simp_all add: odd_fs_def files_def)
  have fc: "wide_fs ''half'' = Gunzip (?c, None)"
    by (simp add: wide_fs_def files_def)
  have wa: "word_at 0 ?a = xIMG" "word_at 4 ?a = 2" "word_at 8 ?a = 1" "word_at 12 ?a = 1"
    by (simp_all add: word_at_def BigEndian_int32_def xIMG_def)
  have wb: "word_at 0 ?b = xIMG" "word_at 4 ?b = 2" "word_at 8 ?b = 1" "word_at 12 ?b = 1"
    by (simp_all add: word_at_def BigEndian_int32_def xIMG_def)
  have wc: "word_at 0 ?c = xIMG" "word_at 4 ?c = 65536" "word_at 8 ?c = 32768" "word_at 12 ?c = 1"
    by (simp_all add: word_at_def BigEndian_int32_def xIMG_def)
  show ?thesis
    using fa fb fc
      payload_read [where fs = odd_fs and p = "''images''" and d = ?a and t = None
        and s = zero_Set]
      payload_read [where fs = odd_fs and p = "''short''" and d = ?b and t = None
        and s = zero_Set]
      payload_read [where fs = wide_fs and p = "''half''" and d = ?c and t = None
        and s = zero_Set]
    by (simp add: wa wb wc zero_Set_def)
qed

text \<open>
  The claim as it was stated fails outside that range: the header 65536, 65536, 1 announces
  \<open>2 ^ 32\<close> bytes and \<open>readImages\<close> succeeds on no payload at all, and with the count \<open>- 1\<close>
  the allocation panics.
\<close>

theorem payload_read_counterexample:
  "readImages wide_fs ''square'' zero_Set =
     (Nil, \<lparr>count = 65536, rows = 65536, cols = 1, matrix = [], labels = []\<rparr>)
   \<and> sint (65536 :: int32) * sint (65536 :: int32) * sint (1 :: int32) = 4294967296
   \<and> readImages wide_fs ''minus'' zero_Set =
     (Panic MakesliceLenOutOfRange,
      \<lparr>count = - 1, rows = 1, cols = 1, matrix = [], labels = []\<rparr>)"
  by (simp add: eval_defs wide_fs_def)

section \<open>What a successful decoding leaves in the receiver\<close>

lemma binary_Read_short:
  assumes "length d < 4"
  shows "binary_Read (d, t) =
           Inl (case t of Some e \<Rightarrow> e | None \<Rightarrow> if d = [] then EOF else ErrUnexpectedEOF)"
proof -
  have "length d < length (replicate 4 (0::byte))" using assms by simp
  then show ?thesis
    using io_ReadFull_short [of d "replicate 4 0" t] by (simp add: binary_Read_def)
qed

lemma readLabels_keeps:
  assumes "readLabels fs p s = (out, s2)"
  shows "count s2 = count s \<and> rows s2 = rows s \<and> cols s2 = cols s \<and> matrix s2 = matrix s"
  using assms
  by (auto simp: readLabels_def split: zfile.splits sum.splits prod.splits option.splits
      if_splits)

lemma readLabels_early:
  assumes "readLabels fs p s = (out, s2)"
    and "\<not> (\<exists>d t. fs p = Gunzip (d, t) \<and> 8 \<le> length d \<and> word_at 0 d = xLAB
              \<and> word_at 4 d = count s \<and> 0 \<le> sint (count s))"
  shows "s2 = s \<and> out \<noteq> Nil"
proof (cases "fs p")
  case (OpenFails e)
  then show ?thesis using assms(1) by (auto simp: readLabels_def)
next
  case (GzipFails e)
  then show ?thesis using assms(1) by (auto simp: readLabels_def)
next
  case (Gunzip z)
  obtain d t where z: "z = (d, t)" by (cases z)
  show ?thesis
  proof (cases "4 \<le> length d")
    case False
    then show ?thesis
      using assms(1) Gunzip z by (auto simp: readLabels_def binary_Read_short)
  next
    case l4: True
    show ?thesis
    proof (cases "word_at 0 d = xLAB")
      case False
      then show ?thesis
        using assms(1) Gunzip z l4
          readLabels_bad_magic [where fs = fs and p = p and d = d and t = t and s = s]
        by auto
    next
      case magic: True
      show ?thesis
      proof (cases "8 \<le> length d")
        case False
        then have "length (drop 4 d) < 4" by simp
        then show ?thesis
          using assms(1) Gunzip z l4 magic
          by (auto simp: readLabels_def binary_Read_first binary_Read_short)
      next
        case l8: True
        have hd: "readLabels fs p s =
          (if word_at 4 d \<noteq> count s then (Err MismatchedCount, s)
           else
            (case make_slice (count s) of
               None \<Rightarrow> (Panic MakesliceLenOutOfRange, s)
             | Some buf \<Rightarrow>
                 (case io_ReadFull (drop 8 d, t) buf of
                    (buf', err, z3) \<Rightarrow>
                      (case err of None \<Rightarrow> Nil | Some e \<Rightarrow> Err e, s\<lparr>labels := buf'\<rparr>))))"
          using Gunzip z l8 magic
          by (simp add: readLabels_header [where fs = fs and p = p and d = d and t = t])
        have "word_at 4 d \<noteq> count s \<or> sint (count s) < 0"
          using assms(2) Gunzip z l8 magic by auto
        then show ?thesis
          using assms(1) by (auto simp: hd make_slice_def split: if_splits)
      qed
    qed
  qed
qed

lemma readLabels_payload:
  assumes "fs p = Gunzip (d, t)" "8 \<le> length d" "word_at 0 d = xLAB"
    "word_at 4 d = count s" "0 \<le> sint (count s)"
  shows "readLabels fs p s =
     (if nat (sint (count s)) \<le> length d - 8
      then (Nil, s\<lparr>labels := take (nat (sint (count s))) (drop 8 d)\<rparr>)
      else (Err (case t of Some e \<Rightarrow> e | None \<Rightarrow> if length d = 8 then EOF else ErrUnexpectedEOF),
            s\<lparr>labels := drop 8 d @ replicate (nat (sint (count s)) - (length d - 8)) 0\<rparr>))"
proof -
  let ?n = "nat (sint (count s))"
  have hd: "readLabels fs p s =
      (case io_ReadFull (drop 8 d, t) (replicate ?n 0) of
         (buf', err, z3) \<Rightarrow> (case err of None \<Rightarrow> Nil | Some e \<Rightarrow> Err e, s\<lparr>labels := buf'\<rparr>))"
    using assms
    by (simp add: readLabels_header [where fs = fs and p = p and d = d and t = t]
        make_slice_def)
  show ?thesis
  proof (cases "?n \<le> length d - 8")
    case True
    then show ?thesis
      using io_ReadFull_enough [of "replicate ?n 0" "drop 8 d" t] by (simp add: hd)
  next
    case False
    then show ?thesis
      using io_ReadFull_short [of "drop 8 d" "replicate ?n 0" t] assms(2)
      by (simp add: hd split: option.splits)
  qed
qed

lemma readLabels_Nil:
  assumes "readLabels fs p s = (Nil, s2)"
  shows "\<exists>d t. fs p = Gunzip (d, t) \<and> 8 \<le> length d \<and> 0 \<le> sint (count s)
           \<and> nat (sint (count s)) \<le> length d - 8
           \<and> s2 = s\<lparr>labels := take (nat (sint (count s))) (drop 8 d)\<rparr>"
proof -
  obtain d t where h: "fs p = Gunzip (d, t)" "8 \<le> length d" "word_at 0 d = xLAB"
    "word_at 4 d = count s" "0 \<le> sint (count s)"
    using readLabels_early [OF assms] by blast
  show ?thesis
    using assms h readLabels_payload [where fs = fs and p = p and d = d and t = t and s = s]
    by (auto split: if_splits)
qed


lemma read_fields_short:
  assumes "length d < 12"
  shows "\<exists>e s'. read_fields [count_update, rows_update, cols_update] (d, t) s = (Inl e, s')"
proof (cases "4 \<le> length d")
  case False
  then show ?thesis by (simp add: binary_Read_short)
next
  case l4: True
  show ?thesis
  proof (cases "8 \<le> length d")
    case False
    then have "length (drop 4 d) < 4" by simp
    then show ?thesis using l4 by (simp add: binary_Read_first binary_Read_short)
  next
    case l8: True
    have "4 \<le> length (drop 4 d)" using l8 by simp
    moreover have "length (drop 4 (drop 4 d)) < 4" using assms by simp
    ultimately show ?thesis
      using l4 by (simp add: binary_Read_first binary_Read_short del: drop_drop)
  qed
qed

lemma readImages_early:
  assumes "readImages fs p s = (out, s1)"
    and "\<not> (\<exists>d t. fs p = Gunzip (d, t) \<and> 16 \<le> length d \<and> word_at 0 d = xIMG)"
  shows "out \<noteq> Nil"
proof (cases "fs p")
  case (OpenFails e)
  then show ?thesis using assms(1) by (auto simp: readImages_def)
next
  case (GzipFails e)
  then show ?thesis using assms(1) by (auto simp: readImages_def)
next
  case (Gunzip z)
  obtain d t where z: "z = (d, t)" by (cases z)
  show ?thesis
  proof (cases "4 \<le> length d")
    case False
    then show ?thesis
      using assms(1) Gunzip z by (auto simp: readImages_def binary_Read_short)
  next
    case l4: True
    show ?thesis
    proof (cases "word_at 0 d = xIMG")
      case False
      then show ?thesis
        using assms(1) Gunzip z l4
          readImages_bad_magic [where fs = fs and p = p and d = d and t = t and s = s]
        by auto
    next
      case magic: True
      then have "length (drop 4 d) < 12"
        using assms(2) Gunzip z by auto
      then obtain e s' where
        "read_fields [count_update, rows_update, cols_update] (drop 4 d, t) s = (Inl e, s')"
        using read_fields_short by blast
      then show ?thesis
        using assms(1) Gunzip z l4 magic by (auto simp: readImages_def binary_Read_first)
    qed
  qed
qed

lemma readImages_Nil:
  assumes "readImages fs p s = (Nil, s1)"
  shows "0 \<le> sint (count s1 * rows s1 * cols s1)
       \<and> int (length (matrix s1)) = sint (count s1 * rows s1 * cols s1)
       \<and> labels s1 = labels s"
proof -
  obtain d t where h: "fs p = Gunzip (d, t)" "16 \<le> length d" "word_at 0 d = xIMG"
    using readImages_early [OF assms] by blast
  let ?w = "word_at 4 d * word_at 8 d * word_at 12 d"
  have r: "readImages fs p s =
     (let s1 = s\<lparr>count := word_at 4 d, rows := word_at 8 d, cols := word_at 12 d\<rparr> in
      case make_slice ?w of
        None \<Rightarrow> (Panic MakesliceLenOutOfRange, s1)
      | Some buf \<Rightarrow>
          (case io_ReadFull (drop 16 d, t) buf of
             (buf', err, z3) \<Rightarrow>
               (case err of None \<Rightarrow> Nil | Some e \<Rightarrow> Err e, s1\<lparr>matrix := buf'\<rparr>)))"
    using readImages_header [where fs = fs and p = p and d = d and t = t and s = s] h by simp
  have nn: "0 \<le> sint ?w"
    using assms r by (auto simp: make_slice_def Let_def split: if_splits)
  obtain buf' err z3 where
    io: "io_ReadFull (drop 16 d, t) (replicate (nat (sint ?w)) 0) = (buf', err, z3)"
    by (cases "io_ReadFull (drop 16 d, t) (replicate (nat (sint ?w)) 0)") auto
  have len: "length buf' = nat (sint ?w)"
    using io_ReadFull_length [of "(drop 16 d, t)" "replicate (nat (sint ?w)) 0"] io by simp
  have "s1 = s\<lparr>count := word_at 4 d, rows := word_at 8 d, cols := word_at 12 d,
                matrix := buf'\<rparr>"
    using assms r nn io by (auto simp: make_slice_def Let_def)
  then show ?thesis using nn len by simp
qed

lemma read_Nil:
  assumes "read fs a b s = (Nil, ds)"
  obtains s1 where "readImages fs a s = (Nil, s1)" "readLabels fs b s1 = (Nil, ds)"
  using assms by (auto simp: read_def split: prod.splits outcome.splits)

section \<open>The product of the header in 32 bits\<close>

text \<open>
  Claim C9, amended. The size of the pixel storage is the product of count, rows and columns
  computed in \<open>int32\<close>. For every image header whose product leaves the \<open>int32\<close> range, the
  product reduced modulo \<open>2 ^ 32\<close> and read as a signed 32-bit value differs from the
  product; when that value is not negative it is the length of the storage that
  \<open>readImages\<close> allocates, so that the length agrees with the product only modulo
  \<open>2 ^ 32\<close>; when it is negative the allocation panics and the storage is left as it was.
\<close>

theorem wrapped_allocation:
  fixes s :: Set and d :: "byte list"
  assumes "fs p = Gunzip (d, t)" and "16 \<le> length d" and "word_at 0 d = xIMG"
  defines "P \<equiv> sint (word_at 4 d) * sint (word_at 8 d) * sint (word_at 12 d)"
  assumes "P < - (2 ^ 31) \<or> 2 ^ 31 \<le> P"
  shows "wrap 32 P \<noteq> P
       \<and> (0 \<le> wrap 32 P \<longrightarrow>
            (\<forall>k. fst (readImages fs p s) \<noteq> Panic k)
            \<and> int (length (matrix (snd (readImages fs p s)))) = wrap 32 P
            \<and> int (length (matrix (snd (readImages fs p s)))) \<noteq> P
            \<and> int (length (matrix (snd (readImages fs p s)))) mod 2 ^ 32 = P mod 2 ^ 32)
       \<and> (wrap 32 P < 0 \<longrightarrow>
            readImages fs p s =
              (Panic MakesliceLenOutOfRange,
               s\<lparr>count := word_at 4 d, rows := word_at 8 d, cols := word_at 12 d\<rparr>))"
proof -
  let ?w = "word_at 4 d * word_at 8 d * word_at 12 d"
  have w: "sint ?w = wrap 32 P"
    by (simp add: sint_mult3 P_def)
  have ne: "wrap 32 P \<noteq> P"
    using wrap32_range [of P] assms(5) by auto
  have r: "readImages fs p s =
     (let s1 = s\<lparr>count := word_at 4 d, rows := word_at 8 d, cols := word_at 12 d\<rparr> in
      case make_slice ?w of
        None \<Rightarrow> (Panic MakesliceLenOutOfRange, s1)
      | Some buf \<Rightarrow>
          (case io_ReadFull (drop 16 d, t) buf of
             (buf', err, z3) \<Rightarrow>
               (case err of None \<Rightarrow> Nil | Some e \<Rightarrow> Err e, s1\<lparr>matrix := buf'\<rparr>)))"
    using readImages_header [where fs = fs and p = p and d = d and t = t and s = s] assms(1-3)
    by simp
  have neg: "wrap 32 P < 0 \<Longrightarrow>
      readImages fs p s =
        (Panic MakesliceLenOutOfRange,
         s\<lparr>count := word_at 4 d, rows := word_at 8 d, cols := word_at 12 d\<rparr>)"
    using w by (simp add: r make_slice_def)
  have pos: "(\<forall>k. fst (readImages fs p s) \<noteq> Panic k)
      \<and> int (length (matrix (snd (readImages fs p s)))) = wrap 32 P"
    if nn: "0 \<le> wrap 32 P"
  proof -
    obtain buf' err z3 where
      io: "io_ReadFull (drop 16 d, t) (replicate (nat (wrap 32 P)) 0) = (buf', err, z3)"
      by (cases "io_ReadFull (drop 16 d, t) (replicate (nat (wrap 32 P)) 0)") auto
    have len: "length buf' = nat (wrap 32 P)"
      using io_ReadFull_length [of "(drop 16 d, t)" "replicate (nat (wrap 32 P)) 0"] io
      by simp
    have "readImages fs p s =
        (case err of None \<Rightarrow> Nil | Some e \<Rightarrow> Err e,
         s\<lparr>count := word_at 4 d, rows := word_at 8 d, cols := word_at 12 d, matrix := buf'\<rparr>)"
      using w nn io by (simp add: r make_slice_def)
    then show ?thesis using len nn by (simp split: option.splits)
  qed
  show ?thesis
    using ne neg pos wrap32_cong [of P] by auto
qed

text \<open>The headers 65536, 65536, 1 (wraps to 0) and 65536, 32768, 1 (wraps to \<open>- 2 ^ 31\<close>).\<close>

theorem wrapped_allocation_witness:
  "wide_fs ''square'' = Gunzip ([0,0,8,3, 0,1,0,0, 0,1,0,0, 0,0,0,1], None)
   \<and> wide_fs ''half'' = Gunzip ([0,0,8,3, 0,1,0,0, 0,0,0x80,0, 0,0,0,1], None)
   \<and> wrap 32 (65536 * 65536 * 1) = 0
   \<and> wrap 32 (65536 * 32768 * 1) = - 2147483648
   \<and> length (matrix (snd (readImages wide_fs ''square'' zero_Set))) = 0
   \<and> readImages wide_fs ''half'' zero_Set =
       (Panic MakesliceLenOutOfRange,
        \<lparr>count = 65536, rows = 32768, cols = 1, matrix = [], labels = []\<rparr>)"
proof -
  let ?a = "[0,0,8,3, 0,1,0,0, 0,1,0,0, 0,0,0,1] :: byte list"
  let ?b = "[0,0,8,3, 0,1,0,0, 0,0,0x80,0, 0,0,0,1] :: byte list"
  have fa: "wide_fs ''square'' = Gunzip (?a, None)" and fb: "wide_fs ''half'' = Gunzip (?b, None)"
    by (simp_all add: wide_fs_def files_def)
  have wa: "word_at 0 ?a = xIMG" "word_at 4 ?a = 65536" "word_at 8 ?a = 65536" "word_at 12 ?a = 1"
    by (simp_all add: word_at_def BigEndian_int32_def xIMG_def)
  have wb: "word_at 0 ?b = xIMG" "word_at 4 ?b = 65536" "word_at 8 ?b = 32768" "word_at 12 ?b = 1"
    by (simp_all add: word_at_def BigEndian_int32_def xIMG_def)
  have v: "wrap 32 (65536 * 65536 * 1) = 0" "wrap 32 (65536 * 32768 * 1) = - 2147483648"
    by (simp_all add: wrap_def)
  show ?thesis
    using fa fb v
      wrapped_allocation [where fs = wide_fs and p = "''square''" and d = ?a and t = None
        and s = zero_Set]
      wrapped_allocation [where fs = wide_fs and p = "''half''" and d = ?b and t = None
        and s = zero_Set]
    by (simp add: wa wb zero_Set_def)
qed

text \<open>
  As it was stated the claim fails where the wrapped product is negative: the header 65536,
  32768, 1 has the product \<open>2 ^ 31\<close>, and no storage of the signed length \<open>- 2 ^ 31\<close> is
  allocated; \<open>make\<close> panics.
\<close>

theorem wrapped_allocation_counterexample:
  "sint (65536 :: int32) * sint (32768 :: int32) * sint (1 :: int32) = 2 ^ 31
   \<and> sint (65536 * 32768 * 1 :: int32) = - (2 ^ 31)
   \<and> readImages wide_fs ''half'' zero_Set =
       (Panic MakesliceLenOutOfRange,
        \<lparr>count = 65536, rows = 32768, cols = 1, matrix = [], labels = []\<rparr>)"
  by (simp add: eval_defs wide_fs_def)

section \<open>The range of the labels\<close>

text \<open>
  Claim C7, amended. In every data set that \<open>read\<close> has decoded, every pixel byte and every
  label byte lies between 0 and 255, and the labels are the bytes of the payload of the label
  file as they stand, one for each image: nothing confines them to 0 to 9, and they lie in
  that range exactly when the bytes of the file do.
\<close>

theorem labels_as_read:
  assumes "read fs a b s = (Nil, ds)"
  shows "(\<forall>x \<in> set (matrix ds). 0 \<le> uint x \<and> uint x \<le> 255)
       \<and> (\<forall>l \<in> set (labels ds). 0 \<le> uint l \<and> uint l \<le> 255)
       \<and> (\<exists>d t. fs b = Gunzip (d, t) \<and> 0 \<le> Len ds \<and> nat (Len ds) \<le> length d - 8
             \<and> labels ds = take (nat (Len ds)) (drop 8 d))"
proof -
  obtain s1 where s1: "readImages fs a s = (Nil, s1)" "readLabels fs b s1 = (Nil, ds)"
    using assms by (rule read_Nil)
  obtain d t where l: "fs b = Gunzip (d, t)" "0 \<le> sint (count s1)"
    "nat (sint (count s1)) \<le> length d - 8"
    "ds = s1\<lparr>labels := take (nat (sint (count s1))) (drop 8 d)\<rparr>"
    using readLabels_Nil [OF s1(2)] by blast
  have byte: "0 \<le> uint x \<and> uint x \<le> 255" for x :: byte
    using uint_lt2p [of x] by simp
  have "count ds = count s1" using l(4) by simp
  then show ?thesis
    using l byte by (auto simp: Len_def)
qed

theorem labels_as_read_witness:
  "read pair_fs ''images'' ''labels'' zero_Set =
     (Nil, \<lparr>count = 2, rows = 1, cols = 1, matrix = [0x10, 0x20], labels = [5, 9]\<rparr>)
   \<and> pair_fs ''labels'' = Gunzip ([0,0,8,1, 0,0,0,2, 5, 9], None)
   \<and> uint (0x10 :: byte) \<le> 255 \<and> uint (0x20 :: byte) \<le> 255
   \<and> uint (5 :: byte) \<le> 255 \<and> uint (9 :: byte) \<le> 255
   \<and> take 2 (drop 8 [0,0,8,1, 0,0,0,2, 5, 9 :: byte]) = [5, 9]"
proof -
  have r: "read pair_fs ''images'' ''labels'' zero_Set =
     (Nil, \<lparr>count = 2, rows = 1, cols = 1, matrix = [0x10, 0x20], labels = [5, 9]\<rparr>)"
    by (simp add: eval_defs pair_fs_def)
  have f: "pair_fs ''labels'' = Gunzip ([0,0,8,1, 0,0,0,2, 5, 9], None)"
    by (simp add: pair_fs_def files_def)
  show ?thesis
    using r f labels_as_read [OF r] by (auto simp: Len_def)
qed

text \<open>The claim as it was stated fails on a label file whose second label is ten.\<close>

theorem labels_as_read_counterexample:
  "read odd_fs ''images'' ''ten'' zero_Set =
     (Nil, \<lparr>count = 2, rows = 1, cols = 1, matrix = [0x10, 0x20], labels = [5, 10]\<rparr>)
   \<and> uint (10 :: byte) = 10"
  by (simp add: eval_defs odd_fs_def)


section \<open>A failure after the images are decoded\<close>

text \<open>
  Claim C10, amended. \<open>read\<close> is not atomic: when \<open>readImages\<close> succeeds and \<open>readLabels\<close>
  then fails, \<open>read\<close> returns that failure and the count, rows, columns and pixel storage
  keep the newly decoded image data. The labels are left as they were when \<open>readLabels\<close>
  fails before its payload (the file cannot be opened or decompressed, the header is short,
  the magic number is wrong, the counts differ, the allocation panics). When it fails in
  the payload, after a good header with the same count, the labels have been replaced by
  a buffer of count bytes: the bytes that came, filled up with zeros.
\<close>

theorem read_not_atomic:
  assumes "readImages fs a s = (Nil, s1)" and "readLabels fs b s1 = (out, s2)" and "out \<noteq> Nil"
  shows "read fs a b s = (out, s2)
       \<and> count s2 = count s1 \<and> rows s2 = rows s1 \<and> cols s2 = cols s1 \<and> matrix s2 = matrix s1
       \<and> (case fs b of
            Gunzip (d, t) \<Rightarrow>
              if 8 \<le> length d \<and> word_at 0 d = xLAB \<and> word_at 4 d = count s1 \<and> 0 \<le> Len s1
              then length d - 8 < nat (Len s1)
                 \<and> labels s2 = drop 8 d @ replicate (nat (Len s1) - (length d - 8)) 0
                 \<and> int (length (labels s2)) = Len s1
              else labels s2 = labels s
          | _ \<Rightarrow> labels s2 = labels s)"
proof -
  have rd: "read fs a b s = (out, s2)"
    using assms(1,2) by (simp add: read_def)
  have keep: "count s2 = count s1 \<and> rows s2 = rows s1 \<and> cols s2 = cols s1 \<and> matrix s2 = matrix s1"
    using readLabels_keeps [OF assms(2)] .
  have lab1: "labels s1 = labels s"
    using readImages_Nil [OF assms(1)] by simp
  have early: "labels s2 = labels s"
    if "\<not> (\<exists>d t. fs b = Gunzip (d, t) \<and> 8 \<le> length d \<and> word_at 0 d = xLAB
              \<and> word_at 4 d = count s1 \<and> 0 \<le> sint (count s1))"
    using readLabels_early [OF assms(2) that] lab1 by simp
  have late: "length d - 8 < nat (Len s1)
       \<and> labels s2 = drop 8 d @ replicate (nat (Len s1) - (length d - 8)) 0
       \<and> int (length (labels s2)) = Len s1"
    if h: "fs b = Gunzip (d, t)" "8 \<le> length d" "word_at 0 d = xLAB" "word_at 4 d = count s1"
      "0 \<le> sint (count s1)" for d t
    using readLabels_payload [where fs = fs and p = b and d = d and t = t and s = s1] h
      assms(2,3)
    by (auto simp: Len_def split: if_splits)
  show ?thesis
  proof (cases "fs b")
    case (Gunzip z)
    obtain d t where z: "z = (d, t)" by (cases z)
    show ?thesis
      using rd keep Gunzip z early late [of d t] by (auto simp: Len_def)
  next
    case (OpenFails e)
    then show ?thesis using rd keep early by simp
  next
    case (GzipFails e)
    then show ?thesis using rd keep early by simp
  qed
qed

text \<open>A label file with another count, and a label file with one label of two.\<close>

theorem read_not_atomic_witness:
  "readImages odd_fs ''images'' zero_Set =
     (Nil, \<lparr>count = 2, rows = 1, cols = 1, matrix = [0x10, 0x20], labels = []\<rparr>)
   \<and> read odd_fs ''images'' ''three'' zero_Set =
       (Err MismatchedCount,
        \<lparr>count = 2, rows = 1, cols = 1, matrix = [0x10, 0x20], labels = []\<rparr>)
   \<and> read odd_fs ''images'' ''cut'' zero_Set =
       (Err ErrUnexpectedEOF,
        \<lparr>count = 2, rows = 1, cols = 1, matrix = [0x10, 0x20], labels = [5, 0]\<rparr>)"
proof -
  let ?s1 = "\<lparr>count = 2, rows = 1, cols = 1, matrix = [0x10, 0x20 :: byte], labels = []\<rparr>"
  have i: "readImages odd_fs ''images'' zero_Set = (Nil, ?s1)"
    by (simp add: eval_defs odd_fs_def)
  have l3: "readLabels odd_fs ''three'' ?s1 = (Err MismatchedCount, ?s1)"
    by (simp add: eval_defs odd_fs_def)
  have lc: "readLabels odd_fs ''cut'' ?s1 = (Err ErrUnexpectedEOF, ?s1\<lparr>labels := [5, 0]\<rparr>)"
    by (simp add: eval_defs odd_fs_def)
  show ?thesis
    using i read_not_atomic [OF i l3] read_not_atomic [OF i lc] by simp
qed

text \<open>
  The claim as it was stated fails on a label file that ends after its header: \<open>readLabels\<close>
  fails with \<open>io.EOF\<close>, and the labels, empty before, are two zero bytes.
\<close>

theorem read_not_atomic_counterexample:
  "readImages odd_fs ''images'' zero_Set =
     (Nil, \<lparr>count = 2, rows = 1, cols = 1, matrix = [0x10, 0x20], labels = []\<rparr>)
   \<and> readLabels odd_fs ''none''
       \<lparr>count = 2, rows = 1, cols = 1, matrix = [0x10, 0x20], labels = []\<rparr> =
       (Err EOF, \<lparr>count = 2, rows = 1, cols = 1, matrix = [0x10, 0x20], labels = [0, 0]\<rparr>)
   \<and> read odd_fs ''images'' ''none'' zero_Set =
       (Err EOF, \<lparr>count = 2, rows = 1, cols = 1, matrix = [0x10, 0x20], labels = [0, 0]\<rparr>)"
proof -
  have two: "replicate 2 (0 :: byte) = [0, 0]"
    by (simp add: numeral_2_eq_2)
  show ?thesis
    by (simp add: eval_defs odd_fs_def two)
qed

section \<open>Slices of the pixel storage\<close>

lemma concat_slices_take:
  "concat (map (\<lambda>i. take n (drop (i * n) xs)) [0..<c]) = take (c * n) xs"
proof (induction c)
  case 0
  show ?case by simp
next
  case (Suc c)
  have "take (c * n) xs @ take n (drop (c * n) xs) = take (c * n + n) xs"
    by (simp add: take_add)
  then show ?case using Suc by (simp add: add.commute)
qed

lemma concat_slices:
  "length xs = c * n \<Longrightarrow> concat (map (\<lambda>i. take n (drop (i * n) xs)) [0..<c]) = xs"
  by (simp add: concat_slices_take)

lemma Index_exact:
  fixes ds :: Set
  assumes len: "int (length (matrix ds)) = Len ds * Rows ds * Cols ds"
    and small: "length (matrix ds) < 2 ^ 31"
    and labs: "int (length (labels ds)) = Len ds"
    and i: "0 \<le> i" "i < Len ds"
  shows "0 \<le> Rows ds * Cols ds
       \<and> Index ds i =
           Inr (labels ds ! nat i,
                take (nat (Rows ds * Cols ds)) (drop (nat i * nat (Rows ds * Cols ds)) (matrix ds)))
       \<and> nat i * nat (Rows ds * Cols ds) + nat (Rows ds * Cols ds) \<le> length (matrix ds)"
proof -
  let ?S = "Rows ds * Cols ds"
  let ?L = "int (length (matrix ds))"
  have L: "?L = Len ds * ?S" using len by (simp add: mult.assoc)
  have Lsmall: "?L < 2 ^ 31" using small by simp
  have cpos: "0 < Len ds" using i by simp
  have S0: "0 \<le> ?S"
  proof (rule ccontr)
    assume "\<not> 0 \<le> ?S"
    then have "Len ds * ?S < 0" using cpos by (simp add: mult_pos_neg)
    then show False using L by simp
  qed
  have iS: "0 \<le> i * ?S" using i S0 by simp
  have step: "i * ?S \<le> (i + 1) * ?S" using S0 by (simp add: distrib_right)
  have top: "(i + 1) * ?S \<le> ?L"
    unfolding L using i S0 by (intro mult_right_mono) simp_all
  have "1 * ?S \<le> (i + 1) * ?S" using i S0 by (intro mult_right_mono) simp_all
  then have Ssmall: "?S < 2 ^ 31" using top Lsmall by simp
  have stride: "sint (rows ds * cols ds) = ?S"
    using S0 Ssmall by (simp add: sint_mult2 wrap32_id Rows_def Cols_def)
  have lo: "wrap64 (i * ?S) = i * ?S"
    using iS step top Lsmall by (intro wrap64_id) simp_all
  have hi: "wrap64 ((i + 1) * ?S) = (i + 1) * ?S"
    using iS step top Lsmall by (intro wrap64_id) simp_all
  have diff: "(i + 1) * ?S - i * ?S = ?S" by (simp add: distrib_right)
  have n: "nat (i * ?S) = nat i * nat ?S"
    using i S0 by (simp add: nat_mult_distrib)
  have bound: "nat i * nat ?S + nat ?S \<le> length (matrix ds)"
  proof -
    have "int (nat i * nat ?S + nat ?S) = (i + 1) * ?S"
      using i S0 by (simp add: distrib_right)
    then show ?thesis using top by linarith
  qed
  have "Index ds i =
      Inr (labels ds ! nat i, take (nat ?S) (drop (nat i * nat ?S) (matrix ds)))"
    using i labs iS step top
    by (simp add: Index_def stride Let_def lo hi diff n del: One_nat_def)
  then show ?thesis using S0 bound by simp
qed

text \<open>
  Claim C6, amended. For every data set that \<open>read\<close> has decoded and whose pixel storage has
  exactly count times rows times columns bytes (the product of the header does not leave the
  \<open>int32\<close> range), and for every index \<open>i\<close> with \<open>0 \<le> i < Len\<close>, \<open>Index i\<close> returns the
  \<open>i\<close>-th label byte together with an image of exactly rows times columns bytes, the bytes
  of the pixel storage from \<open>i * rows * cols\<close> up to \<open>(i + 1) * rows * cols\<close>; and the images
  of the indices \<open>0\<close> to \<open>Len - 1\<close>, one after the other, are the pixel storage.
\<close>

theorem index_slices:
  assumes "read fs a b s = (Nil, ds)"
    and "int (length (matrix ds)) = Len ds * Rows ds * Cols ds"
  shows "(\<forall>i. 0 \<le> i \<and> i < Len ds \<longrightarrow>
            Index ds i =
              Inr (labels ds ! nat i,
                   take (nat (Rows ds * Cols ds))
                     (drop (nat i * nat (Rows ds * Cols ds)) (matrix ds)))
            \<and> length (take (nat (Rows ds * Cols ds))
                 (drop (nat i * nat (Rows ds * Cols ds)) (matrix ds))) = nat (Rows ds * Cols ds))
       \<and> concat (map (\<lambda>i. case Index ds (int i) of Inr (l, px) \<Rightarrow> px | Inl e \<Rightarrow> [])
                   [0..<nat (Len ds)]) = matrix ds"
proof -
  let ?S = "Rows ds * Cols ds"
  obtain s1 where s1: "readImages fs a s = (Nil, s1)" "readLabels fs b s1 = (Nil, ds)"
    using assms(1) by (rule read_Nil)
  obtain d t where l: "0 \<le> sint (count s1)" "nat (sint (count s1)) \<le> length d - 8"
    "ds = s1\<lparr>labels := take (nat (sint (count s1))) (drop 8 d)\<rparr>"
    using readLabels_Nil [OF s1(2)] by blast
  have labs: "int (length (labels ds)) = Len ds"
    using l by (simp add: Len_def)
  have "int (length (matrix s1)) = sint (count s1 * rows s1 * cols s1)"
    using readImages_Nil [OF s1(1)] by simp
  then have "int (length (matrix ds)) < 2 ^ 31"
    using l(3) sint_lt [of "count s1 * rows s1 * cols s1"] by simp
  then have small: "length (matrix ds) < 2 ^ 31" by simp
  note ix = Index_exact [OF assms(2) small labs]
  have one: "Index ds i =
        Inr (labels ds ! nat i, take (nat ?S) (drop (nat i * nat ?S) (matrix ds)))
      \<and> length (take (nat ?S) (drop (nat i * nat ?S) (matrix ds))) = nat ?S"
    if "0 \<le> i" "i < Len ds" for i
    using ix [OF that] by auto
  have img: "(case Index ds (int k) of Inr (l, px) \<Rightarrow> px | Inl e \<Rightarrow> []) =
      take (nat ?S) (drop (k * nat ?S) (matrix ds))"
    if "k \<in> set [0..<nat (Len ds)]" for k
    using that one [of "int k"] by simp
  have total: "length (matrix ds) = nat (Len ds) * nat ?S"
  proof (cases "0 < Len ds")
    case True
    then have "0 \<le> ?S" using ix [of 0] by simp
    then have "int (nat (Len ds) * nat ?S) = Len ds * ?S" using True by simp
    also have "\<dots> = int (length (matrix ds))" using assms(2) by (simp add: mult.assoc)
    finally show ?thesis by linarith
  next
    case False
    then have "Len ds = 0" using labs by simp
    then show ?thesis using assms(2) by simp
  qed
  have "map (\<lambda>i. case Index ds (int i) of Inr (l, px) \<Rightarrow> px | Inl e \<Rightarrow> [])
          [0..<nat (Len ds)] =
        map (\<lambda>k. take (nat ?S) (drop (k * nat ?S) (matrix ds))) [0..<nat (Len ds)]"
    by (rule map_cong [OF refl]) (rule img)
  then have "concat (map (\<lambda>i. case Index ds (int i) of Inr (l, px) \<Rightarrow> px | Inl e \<Rightarrow> [])
          [0..<nat (Len ds)]) =
        concat (map (\<lambda>k. take (nat ?S) (drop (k * nat ?S) (matrix ds))) [0..<nat (Len ds)])"
    by (rule arg_cong)
  also have "\<dots> = matrix ds"
    using total by (rule concat_slices)
  finally show ?thesis using one by simp
qed

text \<open>Two images of two rows and three columns.\<close>

theorem index_slices_witness:
  "read grid_fs ''images'' ''labels'' zero_Set =
     (Nil, \<lparr>count = 2, rows = 2, cols = 3, matrix = [1, 2, 3, 4, 5, 6, 7, 8, 9, 10, 11, 12],
            labels = [7, 3]\<rparr>)
   \<and> Index \<lparr>count = 2, rows = 2, cols = 3, matrix = [1, 2, 3, 4, 5, 6, 7, 8, 9, 10, 11, 12],
            labels = [7, 3]\<rparr> 0 = Inr (7, [1, 2, 3, 4, 5, 6])
   \<and> Index \<lparr>count = 2, rows = 2, cols = 3, matrix = [1, 2, 3, 4, 5, 6, 7, 8, 9, 10, 11, 12],
            labels = [7, 3]\<rparr> 1 = Inr (3, [7, 8, 9, 10, 11, 12])"
proof -
  let ?ds = "\<lparr>count = 2, rows = 2, cols = 3,
              matrix = [1, 2, 3, 4, 5, 6, 7, 8, 9, 10, 11, 12 :: byte], labels = [7, 3]\<rparr>"
  have r: "read grid_fs ''images'' ''labels'' zero_Set = (Nil, ?ds)"
    by (simp add: eval_defs grid_fs_def)
  have e: "int (length (matrix ?ds)) = Len ?ds * Rows ?ds * Cols ?ds"
    by (simp add: Len_def Rows_def Cols_def)
  have six: "nat (Rows ?ds * Cols ?ds) = 6" "Len ?ds = 2"
    by (simp_all add: Len_def Rows_def Cols_def)
  have "Index ?ds 0 = Inr (7, [1, 2, 3, 4, 5, 6]) \<and> Index ?ds 1 = Inr (3, [7, 8, 9, 10, 11, 12])"
    using index_slices [OF r e] unfolding six by simp
  then show ?thesis using r by simp
qed

text \<open>
  The claim as it was stated fails on a decoded data set whose header product leaves the
  \<open>int32\<close> range: with the header 2, 65536, 32768 the storage is empty, the stride is
  \<open>- 2 ^ 31\<close>, and \<open>Index 0\<close> panics although \<open>0 < Len\<close>.
\<close>

theorem index_slices_counterexample:
  "read wide_fs ''double'' ''labels'' zero_Set =
     (Nil, \<lparr>count = 2, rows = 65536, cols = 32768, matrix = [], labels = [5, 9]\<rparr>)
   \<and> Len \<lparr>count = 2, rows = 65536, cols = 32768, matrix = [], labels = [5, 9]\<rparr> = 2
   \<and> Index \<lparr>count = 2, rows = 65536, cols = 32768, matrix = [], labels = [5, 9]\<rparr> 0 =
       Inl SliceBoundsOutOfRange"
  by (simp add: eval_defs wide_fs_def Len_def Index_def wrap64_def wrap_def)

end
